theory Spec2Isabelle
  imports Complex_Main "HOL-Library.Char_ord" "HOL-Library.List_Lexorder"
    "HOL-Library.Multiset" "HOL-Library.Sublist"
begin

section \<open>Data model\<close>

text \<open>
  One row of \<^verbatim>\<open>VNL2023.csv\<close> as \<^verbatim>\<open>pd.read_csv\<close> delivers it. The columns are the
  ones the script reads. \<^verbatim>\<open>Age\<close> is an integer column (the script converts its minimum and
  maximum with \<^verbatim>\<open>int\<close>), the six skill ratings are numeric. A rating is the real
  number its cell holds; a missing cell (NaN in the file) is not a value of these types.
  Means are taken in exact arithmetic; the evaluation of a correlation coefficient in
  binary64 is a parameter of the model. Where pandas itself produces NaN from well-formed
  data (the mean of nothing, a correlation with zero spread) the result type is
  \<open>real option\<close> and \<open>None\<close> stands for NaN.
\<close>

record player =
  Player :: string
  Country :: string
  Position :: string
  Age :: int
  Attack :: real
  Block :: real
  Serve :: real
  Set_col :: real
  Dig :: real
  Receive :: real

type_synonym dataset = "player list"

section \<open>Sidebar filters\<close>

text \<open>\<^verbatim>\<open>Series.isin(values)\<close>: membership of the cell in the given values.\<close>

definition isin :: "'a \<Rightarrow> 'a list \<Rightarrow> bool" where
  "isin v vs = (v \<in> set vs)"

text \<open>\<^verbatim>\<open>Series.between(left, right)\<close> with its default \<^verbatim>\<open>inclusive='both'\<close>.\<close>

definition between :: "int \<Rightarrow> int \<Rightarrow> int \<Rightarrow> bool" where
  "between v left right = (left \<le> v \<and> v \<le> right)"

text \<open>
  \<^verbatim>\<open>filtered_df = df[(df['Position'].isin(selected_positions)) &
                    (df['Age'].between(age_range[0], age_range[1]))]\<close>
  Boolean indexing keeps the rows whose mask is true, in their order.
\<close>

definition filtered_df :: "dataset \<Rightarrow> string list \<Rightarrow> int \<times> int \<Rightarrow> dataset" where
  "filtered_df df selected_positions age_range =
     filter (\<lambda>row. isin (Position row) selected_positions \<and>
                   between (Age row) (fst age_range) (snd age_range)) df"

text \<open>
  \<^verbatim>\<open>Series.unique()\<close>: the distinct values in order of first appearance (a hash-table
  pass that remembers what it has seen).
\<close>

fun unique_from :: "'a list \<Rightarrow> 'a list \<Rightarrow> 'a list" where
  "unique_from seen [] = []"
| "unique_from seen (x # xs) =
     (if x \<in> set seen then unique_from seen xs else x # unique_from (x # seen) xs)"

definition unique :: "'a list \<Rightarrow> 'a list" where
  "unique xs = unique_from [] xs"

text \<open>
  \<^verbatim>\<open>Series.min()\<close> and \<^verbatim>\<open>Series.max()\<close> of an integer column: NaN (\<open>None\<close>) on an empty
  column. \<^verbatim>\<open>int(nan)\<close> raises \<^verbatim>\<open>ValueError\<close>.
\<close>

datatype error = ValueError | StreamlitAPIException | FileNotFoundError | ParserError

definition series_min :: "int list \<Rightarrow> int option" where
  "series_min xs = (case xs of [] \<Rightarrow> None | x # rest \<Rightarrow> Some (fold min rest x))"

definition series_max :: "int list \<Rightarrow> int option" where
  "series_max xs = (case xs of [] \<Rightarrow> None | x # rest \<Rightarrow> Some (fold max rest x))"

definition to_int :: "int option \<Rightarrow> error + int" where
  "to_int v = (case v of None \<Rightarrow> Inl ValueError | Some n \<Rightarrow> Inr n)"

text \<open>
  \<^verbatim>\<open>st.sidebar.slider(label, min_value=..., max_value=..., value=...)\<close> on a first run,
  before the user touches it: it raises \<^verbatim>\<open>StreamlitAPIException\<close> unless \<^verbatim>\<open>min_value\<close> is
  less than \<^verbatim>\<open>max_value\<close>, and returns its \<^verbatim>\<open>value\<close> otherwise.
\<close>

definition slider :: "int \<Rightarrow> int \<Rightarrow> int \<times> int \<Rightarrow> error + (int \<times> int)" where
  "slider min_value max_value v =
     (if min_value < max_value then Inr v else Inl StreamlitAPIException)"

text \<open>
  The sidebar on a first run: the multiselect returns its \<^verbatim>\<open>default\<close>, which is its
  \<^verbatim>\<open>options\<close>, \<^verbatim>\<open>df['Position'].unique()\<close>; the slider is called with
  \<^verbatim>\<open>min_value=int(df['Age'].min())\<close>, \<^verbatim>\<open>max_value=int(df['Age'].max())\<close> and the pair of
  the two as its \<^verbatim>\<open>value\<close>.
\<close>

definition selected_positions :: "dataset \<Rightarrow> string list" where
  "selected_positions df = unique (map Position df)"

definition age_range :: "dataset \<Rightarrow> error + (int \<times> int)" where
  "age_range df =
     (case to_int (series_min (map Age df)) of
        Inl e \<Rightarrow> Inl e
      | Inr lo \<Rightarrow>
          (case to_int (series_max (map Age df)) of
             Inl e \<Rightarrow> Inl e
           | Inr hi \<Rightarrow> slider lo hi (lo, hi)))"

section \<open>Loading the data\<close>

text \<open>
  \<^verbatim>\<open>@st.cache_data def load_data(): return pd.read_csv('VNL2023.csv')\<close>
  The decorator keeps the value a call returned, keyed by the function and its (here: no)
  arguments. A later call finds the entry and returns a copy of it without running the
  body; a call whose body raises stores nothing. The state is the cache entry together
  with a probe counting the runs of the body. Reading and parsing the file is the
  parameter \<open>read_csv\<close>, applied to the file system as it is at the time of the call.
\<close>

record cache_state =
  cache_entry :: "dataset option"
  reads :: nat

definition load_data ::
  "('fs \<Rightarrow> error + dataset) \<Rightarrow> 'fs \<Rightarrow> cache_state \<Rightarrow> (error + dataset) \<times> cache_state" where
  "load_data read_csv fs st =
     (case cache_entry st of
        Some d \<Rightarrow> (Inr d, st)
      | None \<Rightarrow>
          (case read_csv fs of
             Inl e \<Rightarrow> (Inl e, st\<lparr>reads := reads st + 1\<rparr>)
           | Inr d \<Rightarrow> (Inr d, st\<lparr>cache_entry := Some d, reads := reads st + 1\<rparr>)))"

text \<open>
  Every interaction reruns the script, and each run calls \<^verbatim>\<open>load_data()\<close> once. The file
  system may differ from run to run.
\<close>

fun reruns ::
  "('fs \<Rightarrow> error + dataset) \<Rightarrow> 'fs list \<Rightarrow> cache_state \<Rightarrow> (error + dataset) list \<times> cache_state" where
  "reruns read_csv [] st = ([], st)"
| "reruns read_csv (fs # fss) st =
     (case load_data read_csv fs st of
        (r, st') \<Rightarrow> (case reruns read_csv fss st' of (rs, st'') \<Rightarrow> (r # rs, st'')))"

section \<open>Aggregations\<close>

text \<open>
  \<^verbatim>\<open>sort_values(..., ascending=False)\<close>. pandas sorts descending by reversing the data,
  sorting ascending, and reversing the result; with a stable sort, rows with equal keys
  keep their order. With the default \<^verbatim>\<open>kind='quicksort'\<close> numpy does not promise the
  order of ties, so the statements about \<^verbatim>\<open>value_counts\<close> and \<^verbatim>\<open>country_stats\<close> below
  say nothing about it; \<^verbatim>\<open>nlargest\<close> documents its own (\<^verbatim>\<open>keep='first'\<close>).
\<close>

definition sort_values_desc :: "('r \<Rightarrow> 'k::linorder) \<Rightarrow> 'r list \<Rightarrow> 'r list" where
  "sort_values_desc key rows = rev (sort_key key (rev rows))"

text \<open>
  \<^verbatim>\<open>Series.value_counts()\<close>: one entry per distinct value with the number of its
  occurrences, sorted by count, descending.
\<close>

definition value_counts :: "'a list \<Rightarrow> ('a \<times> nat) list" where
  "value_counts xs = sort_values_desc snd (map (\<lambda>k. (k, count_list xs k)) (unique xs))"

text \<open>Tab 1: \<^verbatim>\<open>position_counts = filtered_df['Position'].value_counts()\<close>\<close>

definition position_counts :: "dataset \<Rightarrow> (string \<times> nat) list" where
  "position_counts view = value_counts (map Position view)"

text \<open>
  \<^verbatim>\<open>groupby(key)\<close> on a column of strings: one group per value that occurs, the groups in
  ascending order of the key (\<^verbatim>\<open>sort=True\<close>).
\<close>

definition groupby_keys :: "('r \<Rightarrow> 'k::linorder) \<Rightarrow> 'r list \<Rightarrow> 'k list" where
  "groupby_keys key view = sort (remdups (map key view))"

definition get_group :: "('r \<Rightarrow> 'k) \<Rightarrow> 'k \<Rightarrow> 'r list \<Rightarrow> 'r list" where
  "get_group key k view = filter (\<lambda>row. key row = k) view"

text \<open>\<^verbatim>\<open>mean\<close>: the arithmetic mean; NaN (\<open>None\<close>) of no elements.\<close>

definition mean :: "real list \<Rightarrow> real option" where
  "mean xs = (if xs = [] then None else Some (sum_list xs / real (length xs)))"

text \<open>
  The columns a multiselect of tab 2 or tab 5 can name, and the column of the frame each
  one selects.
\<close>

datatype skill = Attack_skill | Block_skill | Serve_skill | Set_skill | Dig_skill
  | Receive_skill | Age_skill

fun col :: "skill \<Rightarrow> player \<Rightarrow> real" where
  "col Attack_skill = Attack"
| "col Block_skill = Block"
| "col Serve_skill = Serve"
| "col Set_skill = Set_col"
| "col Dig_skill = Dig"
| "col Receive_skill = Receive"
| "col Age_skill = (\<lambda>row. real_of_int (Age row))"

text \<open>What a tab shows: a chart of its data, or \<^verbatim>\<open>st.warning\<close>.\<close>

datatype 'a panel = Chart 'a | Warning

text \<open>
  \<^verbatim>\<open>sns.heatmap(table, ...)\<close> followed by \<^verbatim>\<open>st.pyplot(fig)\<close>: seaborn raises
  \<^verbatim>\<open>ValueError\<close> on a table with no cell (the minimum of an empty array), and draws the
  table otherwise, NaN cells included. The first argument is the table's array of cells.
\<close>

definition heatmap :: "'c list list \<Rightarrow> 't \<Rightarrow> error + 't panel" where
  "heatmap cells table = (if concat cells = [] then Inl ValueError else Inr (Chart table))"

text \<open>
  Tab 2:
  \<^verbatim>\<open>position_skills = filtered_df.groupby('Position')[selected_skills].mean().transpose()\<close>
  After the transpose a row is a skill, and a column a position.
\<close>

definition position_skills ::
  "dataset \<Rightarrow> skill list \<Rightarrow> (skill \<times> (string \<times> real option) list) list" where
  "position_skills view selected_skills =
     map (\<lambda>s. (s, map (\<lambda>p. (p, mean (map (col s) (get_group Position p view))))
                      (groupby_keys Position view)))
         selected_skills"

text \<open>
  \<^verbatim>\<open>if selected_skills: ... sns.heatmap(position_skills, ...) ... else: st.warning(...)\<close>
\<close>

definition skills_by_position ::
  "dataset \<Rightarrow> skill list \<Rightarrow> error + (skill \<times> (string \<times> real option) list) list panel" where
  "skills_by_position view selected_skills =
     (if selected_skills \<noteq> []
      then (let table = position_skills view selected_skills in heatmap (map snd table) table)
      else Inr Warning)"

text \<open>
  \<^verbatim>\<open>DataFrame.nlargest(n, column)\<close> with its default \<^verbatim>\<open>keep='first'\<close>: nothing for
  \<^verbatim>\<open>n <= 0\<close>, else what \<^verbatim>\<open>sort_values(column, ascending=False).head(n)\<close> gives, the
  first occurrences first among equal values.
\<close>

definition nlargest :: "int \<Rightarrow> ('r \<Rightarrow> 'k::linorder) \<Rightarrow> 'r list \<Rightarrow> 'r list" where
  "nlargest n key view = (if n \<le> 0 then [] else take (nat n) (sort_values_desc key view))"

text \<open>
  Tab 4:
  \<^verbatim>\<open>top_attack = filtered_df.nlargest(top_n, 'Attack')[['Player', 'Country', 'Attack', 'Position', 'Age']]\<close>
\<close>

definition top_attack :: "dataset \<Rightarrow> int \<Rightarrow> (string \<times> string \<times> real \<times> string \<times> int) list" where
  "top_attack view top_n =
     map (\<lambda>row. (Player row, Country row, Attack row, Position row, Age row))
         (nlargest top_n Attack view)"

text \<open>
  The Pearson coefficient of two columns in exact arithmetic: the covariance of the two
  over the square root of the product of their sums of squared deviations, clipped to
  \<open>[-1, 1]\<close>; undefined (\<open>None\<close>) when there is no row or the divisor is zero.
\<close>

definition pearson :: "('r \<Rightarrow> real) \<Rightarrow> ('r \<Rightarrow> real) \<Rightarrow> 'r list \<Rightarrow> real option" where
  "pearson x y view =
     (if view = [] then None
      else
        let meanx = sum_list (map x view) / real (length view);
            meany = sum_list (map y view) / real (length view);
            covxy = (\<Sum>row\<leftarrow>view. (x row - meanx) * (y row - meany));
            ssqdm_x = (\<Sum>row\<leftarrow>view. (x row - meanx) * (x row - meanx));
            ssqdm_y = (\<Sum>row\<leftarrow>view. (y row - meany) * (y row - meany));
            divisor = sqrt (ssqdm_x * ssqdm_y)
        in if divisor = 0 then None else Some (max (- 1) (min 1 (covxy / divisor))))"

text \<open>
  \<^verbatim>\<open>DataFrame.corr()\<close>, method \<^verbatim>\<open>pearson\<close>, \<^verbatim>\<open>min_periods=1\<close>, evaluates that
  coefficient in binary64 arithmetic. The arithmetic is not modelled: the parameter
  \<open>float64\<close> stands for it and gives, for the values of two columns, the number pandas
  stores, or \<open>None\<close> for NaN. It may round, and by underflow or overflow it may give NaN
  or 0 where the exact coefficient is another number. Two things are fixed about an
  entry. Where the exact coefficient is undefined the entry is NaN: with no row, one row,
  or a column of equal values the divisor is zero in binary64 as well. And pandas
  evaluates the entries on and below the diagonal and stores each at its mirror position
  too.
\<close>

definition corr_entry ::
  "(real list \<Rightarrow> real list \<Rightarrow> real option) \<Rightarrow> ('r \<Rightarrow> real) \<Rightarrow> ('r \<Rightarrow> real) \<Rightarrow> 'r list
     \<Rightarrow> real option" where
  "corr_entry float64 x y view =
     (case pearson x y view of
        None \<Rightarrow> None
      | Some _ \<Rightarrow> float64 (map x view) (map y view))"

definition corr ::
  "(real list \<Rightarrow> real list \<Rightarrow> real option) \<Rightarrow> dataset \<Rightarrow> skill list \<Rightarrow> real option list list" where
  "corr float64 view selected_corr_skills =
     (let n = length selected_corr_skills;
          entry = (\<lambda>i j. corr_entry float64 (col (selected_corr_skills ! i))
                                              (col (selected_corr_skills ! j)) view)
      in map (\<lambda>i. map (\<lambda>j. if j \<le> i then entry i j else entry j i) [0..<n]) [0..<n])"

text \<open>
  Tab 5:
  \<^verbatim>\<open>if len(selected_corr_skills) >= 2: corr = filtered_df[selected_corr_skills].corr();
     ... sns.heatmap(corr, mask=mask, ...) ... else: st.warning(...)\<close>
\<close>

definition skill_correlations ::
  "(real list \<Rightarrow> real list \<Rightarrow> real option) \<Rightarrow> dataset \<Rightarrow> skill list
     \<Rightarrow> error + real option list list panel" where
  "skill_correlations float64 view selected_corr_skills =
     (if length selected_corr_skills \<ge> 2
      then (let corr = corr float64 view selected_corr_skills in heatmap corr corr)
      else Inr Warning)"


text \<open>
  Tab 6:
  \<^verbatim>\<open>country_stats = filtered_df.groupby('Country').agg({'Player': 'count', 'Attack': 'mean',
       'Block': 'mean', 'Age': 'mean'}).sort_values('Player', ascending=False)
   country_stats = country_stats[country_stats['Player'] >= min_players]\<close>
\<close>

record country_row =
  country :: string
  Player_count :: nat
  Attack_mean :: "real option"
  Block_mean :: "real option"
  Age_mean :: "real option"

definition agg :: "dataset \<Rightarrow> string \<Rightarrow> country_row" where
  "agg view c =
     (let g = get_group Country c view in
      \<lparr>country = c,
       Player_count = length g,
       Attack_mean = mean (map Attack g),
       Block_mean = mean (map Block g),
       Age_mean = mean (map (\<lambda>row. real_of_int (Age row)) g)\<rparr>)"

definition country_stats :: "dataset \<Rightarrow> int \<Rightarrow> country_row list" where
  "country_stats view min_players =
     filter (\<lambda>r. int (Player_count r) \<ge> min_players)
       (sort_values_desc Player_count (map (agg view) (groupby_keys Country view)))"

definition country_performance :: "dataset \<Rightarrow> int \<Rightarrow> country_row list panel" where
  "country_performance view min_players =
     (let cs = country_stats view min_players in if cs \<noteq> [] then Chart cs else Warning)"

section \<open>A five-row dataset\<close>

text \<open>
  The example of the specification: positions OH, OH, MB, S, L with ages 20, 25, 30, 22,
  28. The other cells are chosen here; the first two rows tie on \<^verbatim>\<open>Attack\<close>.
\<close>

definition example_df :: dataset where
  "example_df =
     [\<lparr>Player = ''A'', Country = ''X'', Position = ''OH'', Age = 20, Attack = 12, Block = 2,
        Serve = 1, Set_col = 0, Dig = 4, Receive = 5\<rparr>,
      \<lparr>Player = ''B'', Country = ''Y'', Position = ''OH'', Age = 25, Attack = 12, Block = 3,
        Serve = 2, Set_col = 0, Dig = 5, Receive = 6\<rparr>,
      \<lparr>Player = ''C'', Country = ''X'', Position = ''MB'', Age = 30, Attack = 8, Block = 9,
        Serve = 1, Set_col = 0, Dig = 1, Receive = 0\<rparr>,
      \<lparr>Player = ''D'', Country = ''Y'', Position = ''S'', Age = 22, Attack = 1, Block = 2,
        Serve = 3, Set_col = 20, Dig = 3, Receive = 0\<rparr>,
      \<lparr>Player = ''E'', Country = ''X'', Position = ''L'', Age = 28, Attack = 0, Block = 0,
        Serve = 0, Set_col = 1, Dig = 11, Receive = 12\<rparr>]"

text \<open>An arithmetic for the correlations that evaluates the coefficient exactly.\<close>

definition no_rounding :: "real list \<Rightarrow> real list \<Rightarrow> real option" where
  "no_rounding xs ys = pearson fst snd (zip xs ys)"

text \<open>A file system for the loader: the file is there and parses to the example, or it is
  missing.\<close>

definition example_read_csv :: "bool \<Rightarrow> error + dataset" where
  "example_read_csv file_present = (if file_present then Inr example_df else Inl FileNotFoundError)"

section \<open>The filter\<close>

text \<open>
  Claim C1. A row is in the filtered view exactly when it is a row of the dataset, its
  position is one of the selected positions and its age lies between the two bounds, both
  included. Counted with multiplicity the view is the dataset restricted to that
  predicate; it is a subsequence of the dataset and never longer than it.
\<close>

theorem filtered_df_exact:
  "(row \<in> set (filtered_df df ps (lo, hi)) \<longleftrightarrow>
      row \<in> set df \<and> Position row \<in> set ps \<and> lo \<le> Age row \<and> Age row \<le> hi)
   \<and> mset (filtered_df df ps (lo, hi)) =
       filter_mset (\<lambda>row. Position row \<in> set ps \<and> lo \<le> Age row \<and> Age row \<le> hi) (mset df)
   \<and> subseq (filtered_df df ps (lo, hi)) df
   \<and> length (filtered_df df ps (lo, hi)) \<le> length df"
  by (simp add: filtered_df_def isin_def between_def)

theorem filtered_df_exact_witness:
  "map Player (filtered_df example_df [''OH''] (18, 26)) = [''A'', ''B''] \<and>
   length (filtered_df example_df [''OH''] (21, 26)) = 1 \<and>
   subseq (filtered_df example_df [''OH''] (18, 26)) example_df"
  using filtered_df_exact [of _ example_df "[''OH'']" 18 26]
  by (simp add: example_df_def filtered_df_def isin_def between_def)

text \<open>
  Claim C7. With no position selected the filtered view is empty, for every dataset and
  every age range; the filter is a total function and raises nothing.
\<close>

theorem filtered_df_no_positions: "filtered_df df [] rng = []"
  by (simp add: filtered_df_def isin_def)

theorem filtered_df_no_positions_witness:
  "filtered_df example_df [] (18, 26) = []"
  using filtered_df_no_positions [of example_df "(18, 26)"] by simp

section \<open>The default state of the sidebar\<close>

lemma set_unique_from: "set (unique_from seen xs) = set xs - set seen"
  by (induction xs arbitrary: seen) auto

lemma set_unique: "set (unique xs) = set xs"
  by (simp add: unique_def set_unique_from)

lemma distinct_unique_from: "distinct (unique_from seen xs)"
  by (induction xs arbitrary: seen) (auto simp: set_unique_from)

lemma distinct_unique: "distinct (unique xs)"
  by (simp add: unique_def distinct_unique_from)

lemma fold_min_le: "fold min xs (a::int) \<le> a \<and> (\<forall>x \<in> set xs. fold min xs a \<le> x)"
proof (induction xs arbitrary: a)
  case Nil
  show ?case by simp
next
  case (Cons x xs)
  have "fold min xs (min x a) \<le> min x a" using Cons.IH by blast
  then show ?case using Cons.IH [of "min x a"] by auto
qed

lemma fold_max_ge: "a \<le> fold max xs (a::int) \<and> (\<forall>x \<in> set xs. x \<le> fold max xs a)"
proof (induction xs arbitrary: a)
  case Nil
  show ?case by simp
next
  case (Cons x xs)
  have "max x a \<le> fold max xs (max x a)" using Cons.IH by blast
  then show ?case using Cons.IH [of "max x a"] by auto
qed

lemma series_min_le: "series_min xs = Some m \<Longrightarrow> x \<in> set xs \<Longrightarrow> m \<le> x"
  using fold_min_le by (cases xs) (auto simp: series_min_def)

lemma series_max_ge: "series_max xs = Some m \<Longrightarrow> x \<in> set xs \<Longrightarrow> x \<le> m"
  using fold_max_ge by (cases xs) (auto simp: series_max_def)

lemma fold_min_in: "fold min xs (a::int) \<in> set (a # xs)"
proof (induction xs arbitrary: a)
  case Nil
  show ?case by simp
next
  case (Cons x xs)
  have ih: "fold min xs (min x a) \<in> set (min x a # xs)" by (rule Cons.IH)
  have "min x a = x \<or> min x a = a" by (simp add: min_def)
  then show ?case
  proof
    assume "min x a = x"
    with ih show ?thesis by auto
  next
    assume "min x a = a"
    with ih show ?thesis by auto
  qed
qed

lemma fold_max_in: "fold max xs (a::int) \<in> set (a # xs)"
proof (induction xs arbitrary: a)
  case Nil
  show ?case by simp
next
  case (Cons x xs)
  have ih: "fold max xs (max x a) \<in> set (max x a # xs)" by (rule Cons.IH)
  have "max x a = x \<or> max x a = a" by (simp add: max_def)
  then show ?case
  proof
    assume "max x a = x"
    with ih show ?thesis by auto
  next
    assume "max x a = a"
    with ih show ?thesis by auto
  qed
qed

lemma series_min_in: "series_min xs = Some m \<Longrightarrow> m \<in> set xs"
  using fold_min_in by (cases xs) (auto simp: series_min_def)

lemma series_max_in: "series_max xs = Some m \<Longrightarrow> m \<in> set xs"
  using fold_max_in by (cases xs) (auto simp: series_max_def)

lemma age_range_Inr:
  "age_range df = Inr (lo, hi) \<longleftrightarrow>
     series_min (map Age df) = Some lo \<and> series_max (map Age df) = Some hi \<and> lo < hi"
  by (auto simp: age_range_def to_int_def slider_def split: option.splits sum.splits)

lemma age_range_exists:
  "(\<exists>rng. age_range df = Inr rng) \<longleftrightarrow> (\<exists>r \<in> set df. \<exists>r' \<in> set df. Age r \<noteq> Age r')"
proof
  assume "\<exists>rng. age_range df = Inr rng"
  then obtain lo hi where "age_range df = Inr (lo, hi)" by auto
  then have m: "series_min (map Age df) = Some lo" "series_max (map Age df) = Some hi" "lo < hi"
    by (simp_all add: age_range_Inr)
  have "lo \<in> Age ` set df" using series_min_in [OF m(1)] by simp
  moreover have "hi \<in> Age ` set df" using series_max_in [OF m(2)] by simp
  ultimately obtain r r' where rr: "r \<in> set df" "r' \<in> set df" "Age r = lo" "Age r' = hi"
    by auto
  have "Age r \<noteq> Age r'" using rr(3,4) m(3) by simp
  with rr(1,2) show "\<exists>r \<in> set df. \<exists>r' \<in> set df. Age r \<noteq> Age r'" by blast
next
  assume "\<exists>r \<in> set df. \<exists>r' \<in> set df. Age r \<noteq> Age r'"
  then obtain r r' where r: "r \<in> set df" "r' \<in> set df" "Age r \<noteq> Age r'" by blast
  then have ne: "map Age df \<noteq> []" by auto
  obtain lo where lo: "series_min (map Age df) = Some lo"
    using ne by (cases "map Age df") (auto simp: series_min_def)
  obtain hi where hi: "series_max (map Age df) = Some hi"
    using ne by (cases "map Age df") (auto simp: series_max_def)
  have a: "Age r \<in> set (map Age df)" "Age r' \<in> set (map Age df)" using r by simp_all
  have "lo \<le> Age r" "lo \<le> Age r'" "Age r \<le> hi" "Age r' \<le> hi"
    using a lo hi series_min_le series_max_ge by blast+
  with r(3) have "lo < hi" by linarith
  with lo hi have "age_range df = Inr (lo, hi)" by (simp add: age_range_Inr)
  then show "\<exists>rng. age_range df = Inr rng" by blast
qed

text \<open>
  Claim C5. The sidebar reaches its default state exactly on a dataset with two rows of
  different age (with no row \<^verbatim>\<open>int(df['Age'].min())\<close> raises, with a single age the slider
  does). Whenever it reaches it, the default positions and the default age range keep
  every row: the filtered view is the dataset itself, row for row.
\<close>

theorem default_filter_keeps_all:
  "((\<exists>rng. age_range df = Inr rng) \<longleftrightarrow> (\<exists>r \<in> set df. \<exists>r' \<in> set df. Age r \<noteq> Age r')) \<and>
   (\<forall>rng. age_range df = Inr rng \<longrightarrow> filtered_df df (selected_positions df) rng = df)"
proof (intro conjI allI impI)
  show "(\<exists>rng. age_range df = Inr rng) \<longleftrightarrow> (\<exists>r \<in> set df. \<exists>r' \<in> set df. Age r \<noteq> Age r')"
    by (rule age_range_exists)
next
  fix rng
  assume a: "age_range df = Inr rng"
  obtain lo hi where rng: "rng = (lo, hi)" by (cases rng)
  from a rng have mm: "series_min (map Age df) = Some lo" "series_max (map Age df) = Some hi"
    by (simp_all add: age_range_Inr)
  have "\<forall>row \<in> set df. isin (Position row) (selected_positions df) \<and> between (Age row) lo hi"
  proof
    fix row assume r: "row \<in> set df"
    then have "Age row \<in> set (map Age df)" by simp
    then have "lo \<le> Age row" "Age row \<le> hi"
      using mm series_min_le series_max_ge by blast+
    moreover have "Position row \<in> set (unique (map Position df))"
      using r by (simp add: set_unique)
    ultimately show "isin (Position row) (selected_positions df) \<and> between (Age row) lo hi"
      by (simp add: isin_def between_def selected_positions_def)
  qed
  then show "filtered_df df (selected_positions df) rng = df"
    by (simp add: filtered_df_def rng)
qed

theorem default_filter_keeps_all_witness:
  "Age (example_df ! 0) \<noteq> Age (example_df ! 2) \<and>
   selected_positions example_df = [''OH'', ''MB'', ''S'', ''L''] \<and>
   age_range example_df = Inr (20, 30) \<and>
   filtered_df example_df (selected_positions example_df) (20, 30) = example_df \<and>
   age_range (take 1 example_df) = Inl StreamlitAPIException \<and>
   age_range [] = Inl ValueError"
proof -
  have r: "age_range example_df = Inr (20, 30)"
    by (simp add: age_range_def to_int_def series_min_def series_max_def slider_def
        example_df_def)
  have "filtered_df example_df (selected_positions example_df) (20, 30) = example_df"
    using default_filter_keeps_all [of example_df] r by blast
  moreover have "selected_positions example_df = [''OH'', ''MB'', ''S'', ''L'']"
    by (simp add: selected_positions_def unique_def example_df_def)
  moreover have "Age (example_df ! 0) \<noteq> Age (example_df ! 2)"
    by (simp add: example_df_def)
  moreover have "age_range (take 1 example_df) = Inl StreamlitAPIException"
    by (simp add: age_range_def to_int_def series_min_def series_max_def slider_def
        example_df_def)
  moreover have "age_range [] = Inl ValueError"
    by (simp add: age_range_def to_int_def series_min_def)
  ultimately show ?thesis using r by simp
qed

section \<open>The cached loader\<close>

lemma reruns_cached:
  "cache_entry st = Some d \<Longrightarrow> reruns read_csv fss st = (replicate (length fss) (Inr d), st)"
  by (induction fss) (auto simp: load_data_def)

lemma load_data_Inr_cached:
  "load_data read_csv fs st = (Inr d, st') \<Longrightarrow> cache_entry st' = Some d"
  by (auto simp: load_data_def split: option.splits sum.splits)

text \<open>
  Claim C6. Once a call of \<^verbatim>\<open>load_data\<close> has returned a dataset, every later call, whatever
  the file system has become, returns the same dataset and leaves the state as it is, read
  counter included. The call that filled the cache ran the body once, on the file it found.
\<close>

theorem load_data_idempotent:
  "load_data read_csv fs st = (Inr d, st') \<Longrightarrow>
     reruns read_csv fss st' = (replicate (length fss) (Inr d), st') \<and>
     load_data read_csv fs' st' = (Inr d, st') \<and>
     reads st' \<le> reads st + 1 \<and>
     (cache_entry st = None \<longrightarrow> reads st' = reads st + 1 \<and> read_csv fs = Inr d)"
proof -
  assume a: "load_data read_csv fs st = (Inr d, st')"
  have c: "cache_entry st' = Some d" using a by (rule load_data_Inr_cached)
  have "reruns read_csv fss st' = (replicate (length fss) (Inr d), st')"
    using c by (rule reruns_cached)
  moreover have "load_data read_csv fs' st' = (Inr d, st')"
    using c by (simp add: load_data_def)
  moreover have "reads st' \<le> reads st + 1"
    using a by (auto simp: load_data_def split: option.splits sum.splits)
  moreover have "cache_entry st = None \<longrightarrow> reads st' = reads st + 1 \<and> read_csv fs = Inr d"
    using a by (auto simp: load_data_def split: option.splits sum.splits)
  ultimately show ?thesis by blast
qed

theorem load_data_idempotent_witness:
  "load_data example_read_csv True \<lparr>cache_entry = None, reads = 0\<rparr>
     = (Inr example_df, \<lparr>cache_entry = Some example_df, reads = 1\<rparr>) \<and>
   reruns example_read_csv [False, True] \<lparr>cache_entry = Some example_df, reads = 1\<rparr>
     = ([Inr example_df, Inr example_df], \<lparr>cache_entry = Some example_df, reads = 1\<rparr>)"
proof -
  have f: "load_data example_read_csv True \<lparr>cache_entry = None, reads = 0\<rparr>
     = (Inr example_df, \<lparr>cache_entry = Some example_df, reads = 1\<rparr>)"
    by (simp add: load_data_def example_read_csv_def)
  have "reruns example_read_csv [False, True] \<lparr>cache_entry = Some example_df, reads = 1\<rparr>
      = (replicate (length [False, True]) (Inr example_df),
         \<lparr>cache_entry = Some example_df, reads = 1\<rparr>)"
    using load_data_idempotent [OF f] by blast
  then show ?thesis using f by (simp del: reruns.simps)
qed

section \<open>Sorting in descending order\<close>

lemma mset_sort_values_desc: "mset (sort_values_desc key rows) = mset rows"
  by (simp add: sort_values_desc_def)

lemma set_sort_values_desc: "set (sort_values_desc key rows) = set rows"
  by (simp add: sort_values_desc_def)

lemma length_sort_values_desc: "length (sort_values_desc key rows) = length rows"
  by (simp add: sort_values_desc_def)

lemma sorted_sort_values_desc:
  "sorted_wrt (\<lambda>a b. key a \<ge> key b) (sort_values_desc key rows)"
proof -
  have "sorted (map key (sort_key key (rev rows)))" by simp
  then have "sorted_wrt (\<lambda>a b. key a \<le> key b) (sort_key key (rev rows))"
    by (simp only: sorted_map)
  then show ?thesis
    by (simp add: sort_values_desc_def sorted_wrt_rev)
qed

lemma stable_sort_values_desc:
  "filter (\<lambda>r. key r = k) (sort_values_desc key rows) = filter (\<lambda>r. key r = k) rows"
proof -
  have "filter (\<lambda>r. key r = k) (sort_values_desc key rows)
          = rev (filter (\<lambda>r. key r = k) (sort_key key (rev rows)))"
    by (simp add: sort_values_desc_def rev_filter)
  also have "\<dots> = rev (filter (\<lambda>r. key r = k) (rev rows))"
    by (simp only: sort_key_stable)
  also have "\<dots> = filter (\<lambda>r. key r = k) rows"
    by (simp add: rev_filter)
  finally show ?thesis .
qed

lemma distinct_map_sort_values_desc:
  "distinct (map f (sort_values_desc key rows)) = distinct (map f rows)"
proof -
  have "mset (map f (sort_values_desc key rows)) = mset (map f rows)"
    by (simp add: mset_sort_values_desc)
  then show ?thesis by (rule mset_eq_imp_distinct_iff)
qed

section \<open>Position counts\<close>

lemma value_counts_Nil: "value_counts [] = []"
  by (simp add: value_counts_def unique_def sort_values_desc_def)

lemma set_value_counts:
  "set (value_counts xs) = (\<lambda>k. (k, count_list xs k)) ` set xs"
  by (simp add: value_counts_def set_sort_values_desc set_unique)

lemma distinct_keys_value_counts: "distinct (map fst (value_counts xs))"
  by (simp add: value_counts_def distinct_map_sort_values_desc comp_def distinct_unique)

lemma sorted_value_counts: "sorted_wrt (\<lambda>a b. snd a \<ge> snd b) (value_counts xs)"
  by (simp add: value_counts_def sorted_sort_values_desc)

lemma count_list_map:
  "count_list (map f xs) k = length (filter (\<lambda>x. f x = k) xs)"
  by (induction xs) auto

text \<open>
  Claim C9. The position counts are ordered by descending count; there is one entry per
  position of the view, and its count is the number of rows with that position; an empty
  view gives no entry; and a view whose positions are OH, OH, MB, S, L gives the four
  entries OH 2, MB 1, S 1, L 1, with OH first. (The statement leaves the order of
  positions with equal counts open.)
\<close>

theorem position_counts_spec:
  "sorted_wrt (\<lambda>a b. snd a \<ge> snd b) (position_counts view) \<and>
   distinct (map fst (position_counts view)) \<and>
   fst ` set (position_counts view) = Position ` set view \<and>
   (\<forall>(p, n) \<in> set (position_counts view).
      n = length (filter (\<lambda>row. Position row = p) view) \<and> 0 < n) \<and>
   (\<forall>row \<in> set view.
      (Position row, length (filter (\<lambda>r. Position r = Position row) view))
        \<in> set (position_counts view)) \<and>
   position_counts [] = [] \<and>
   (map Position view = [''OH'', ''OH'', ''MB'', ''S'', ''L''] \<longrightarrow>
      mset (position_counts view) = {#(''OH'', 2), (''MB'', 1), (''S'', 1), (''L'', 1)#} \<and>
      hd (position_counts view) = (''OH'', 2))"
proof (intro conjI)
  show "sorted_wrt (\<lambda>a b. snd a \<ge> snd b) (position_counts view)"
    by (simp add: position_counts_def sorted_value_counts)
  show "distinct (map fst (position_counts view))"
    by (simp add: position_counts_def distinct_keys_value_counts)
  show "fst ` set (position_counts view) = Position ` set view"
    by (simp add: position_counts_def set_value_counts image_image)
  show "\<forall>(p, n) \<in> set (position_counts view).
      n = length (filter (\<lambda>row. Position row = p) view) \<and> 0 < n"
    by (auto simp: position_counts_def set_value_counts count_list_map filter_empty_conv)
  show "\<forall>row \<in> set view.
      (Position row, length (filter (\<lambda>r. Position r = Position row) view))
        \<in> set (position_counts view)"
    by (auto simp: position_counts_def set_value_counts count_list_map)
  show "position_counts [] = []"
    by (simp add: position_counts_def value_counts_Nil)
  show "map Position view = [''OH'', ''OH'', ''MB'', ''S'', ''L''] \<longrightarrow>
      mset (position_counts view) = {#(''OH'', 2), (''MB'', 1), (''S'', 1), (''L'', 1)#} \<and>
      hd (position_counts view) = (''OH'', 2)"
    by (simp add: position_counts_def value_counts_def unique_def sort_values_desc_def)
qed

theorem position_counts_spec_witness:
  "map Position example_df = [''OH'', ''OH'', ''MB'', ''S'', ''L''] \<and>
   position_counts example_df = [(''OH'', 2), (''MB'', 1), (''S'', 1), (''L'', 1)] \<and>
   length (filter (\<lambda>row. Position row = ''OH'') example_df) = 2"
proof -
  have p: "map Position example_df = [''OH'', ''OH'', ''MB'', ''S'', ''L'']"
    by (simp add: example_df_def)
  have "mset (position_counts example_df) = {#(''OH'', 2), (''MB'', 1), (''S'', 1), (''L'', 1)#}
      \<and> hd (position_counts example_df) = (''OH'', 2)"
    using position_counts_spec [of example_df] p by blast
  moreover have "position_counts example_df = [(''OH'', 2), (''MB'', 1), (''S'', 1), (''L'', 1)]"
    by (simp add: position_counts_def value_counts_def unique_def sort_values_desc_def
        example_df_def)
  moreover have "length (filter (\<lambda>row. Position row = ''OH'') example_df) = 2"
    by (simp add: example_df_def)
  ultimately show ?thesis using p by simp
qed

section \<open>Top attackers\<close>

lemma filter_take_prefix: "prefix (filter P (take n ys)) (filter P ys)"
proof -
  have "filter P ys = filter P (take n ys) @ filter P (drop n ys)"
    by (simp flip: filter_append)
  then show ?thesis by (metis prefixI)
qed

lemma nlargest_split:
  "\<exists>rest. mset view = mset (nlargest n key view) + mset rest \<and>
      sorted_wrt (\<lambda>a b. key a \<ge> key b) (nlargest n key view @ rest)"
proof (cases "n \<le> 0")
  case True
  have "sorted_wrt (\<lambda>a b. key a \<ge> key b) ([] @ sort_values_desc key view)"
    by (simp add: sorted_sort_values_desc)
  moreover have "mset view = mset [] + mset (sort_values_desc key view)"
    by (simp add: mset_sort_values_desc)
  ultimately show ?thesis using True by (auto simp: nlargest_def)
next
  case False
  let ?s = "sort_values_desc key view"
  have "mset view = mset (take (nat n) ?s) + mset (drop (nat n) ?s)"
    by (simp add: mset_sort_values_desc flip: mset_append)
  moreover have "sorted_wrt (\<lambda>a b. key a \<ge> key b) (take (nat n) ?s @ drop (nat n) ?s)"
    by (simp add: sorted_sort_values_desc)
  ultimately show ?thesis using False by (auto simp: nlargest_def)
qed

lemma length_nlargest:
  "length (nlargest n key view) = (if n \<le> 0 then 0 else min (nat n) (length view))"
  by (simp add: nlargest_def length_sort_values_desc min.commute)

lemma sorted_nlargest: "sorted_wrt (\<lambda>a b. key a \<ge> key b) (nlargest n key view)"
  using nlargest_split [of view n key] by (auto simp: sorted_wrt_append)

lemma mset_nlargest: "mset (nlargest n key view) \<subseteq># mset view"
  using nlargest_split [of view n key] by auto

lemma nlargest_greatest:
  "a \<in> set (nlargest n key view) \<Longrightarrow> b \<in># mset view - mset (nlargest n key view)
     \<Longrightarrow> key b \<le> key a"
proof -
  assume a: "a \<in> set (nlargest n key view)"
    and b: "b \<in># mset view - mset (nlargest n key view)"
  obtain rest where r: "mset view = mset (nlargest n key view) + mset rest"
    "sorted_wrt (\<lambda>a b. key a \<ge> key b) (nlargest n key view @ rest)"
    using nlargest_split by blast
  from r(1) b have "b \<in> set rest" by simp
  with a r(2) show ?thesis by (auto simp: sorted_wrt_append)
qed

lemma nlargest_first_occurrences:
  "prefix (filter (\<lambda>r. key r = v) (nlargest n key view)) (filter (\<lambda>r. key r = v) view)"
proof (cases "n \<le> 0")
  case True
  then show ?thesis by (simp add: nlargest_def)
next
  case False
  have "prefix (filter (\<lambda>r. key r = v) (take (nat n) (sort_values_desc key view)))
          (filter (\<lambda>r. key r = v) (sort_values_desc key view))"
    by (rule filter_take_prefix)
  then show ?thesis using False by (simp add: nlargest_def stable_sort_values_desc)
qed

lemma nlargest_all:
  "int (length view) \<le> n \<Longrightarrow> nlargest n key view = sort_values_desc key view"
proof (cases "n \<le> 0")
  case True
  assume "int (length view) \<le> n"
  with True have "int (length view) \<le> 0" by linarith
  then have "view = []" by simp
  then show ?thesis by (simp add: nlargest_def sort_values_desc_def)
next
  case False
  assume "int (length view) \<le> n"
  then have "length (sort_values_desc key view) \<le> nat n"
    by (simp add: length_sort_values_desc)
  with False show ?thesis by (simp add: nlargest_def)
qed

text \<open>
  Claim C2. \<^verbatim>\<open>top_attack\<close> shows the rows \<^verbatim>\<open>nlargest\<close> selects. There are \<open>n\<close> of them, or
  all rows of the view when it has fewer, and none when \<open>n \<le> 0\<close>. They are rows of the view
  in descending order of \<^verbatim>\<open>Attack\<close>; no row left out has a greater value than a row
  selected; and among rows with the same value the selected ones are the first of the
  view, in the view's order.
\<close>

theorem top_attack_spec:
  "top_attack view n =
      map (\<lambda>row. (Player row, Country row, Attack row, Position row, Age row))
        (nlargest n Attack view) \<and>
   length (nlargest n Attack view) = (if n \<le> 0 then 0 else min (nat n) (length view)) \<and>
   sorted_wrt (\<lambda>a b. Attack a \<ge> Attack b) (nlargest n Attack view) \<and>
   mset (nlargest n Attack view) \<subseteq># mset view \<and>
   (\<forall>a \<in> set (nlargest n Attack view).
      \<forall>b \<in># mset view - mset (nlargest n Attack view). Attack b \<le> Attack a) \<and>
   (\<forall>v. prefix (filter (\<lambda>r. Attack r = v) (nlargest n Attack view))
               (filter (\<lambda>r. Attack r = v) view)) \<and>
   (int (length view) \<le> n \<longrightarrow> mset (nlargest n Attack view) = mset view) \<and>
   (n \<le> 0 \<longrightarrow> top_attack view n = [])"
proof (intro conjI allI ballI impI)
  show "top_attack view n =
      map (\<lambda>row. (Player row, Country row, Attack row, Position row, Age row))
        (nlargest n Attack view)"
    by (simp add: top_attack_def)
  show "length (nlargest n Attack view) = (if n \<le> 0 then 0 else min (nat n) (length view))"
    by (rule length_nlargest)
  show "sorted_wrt (\<lambda>a b. Attack a \<ge> Attack b) (nlargest n Attack view)"
    by (rule sorted_nlargest)
  show "mset (nlargest n Attack view) \<subseteq># mset view"
    by (rule mset_nlargest)
  show "Attack b \<le> Attack a"
    if "a \<in> set (nlargest n Attack view)" "b \<in># mset view - mset (nlargest n Attack view)"
    for a b
    using that by (rule nlargest_greatest)
  show "prefix (filter (\<lambda>r. Attack r = v) (nlargest n Attack view))
               (filter (\<lambda>r. Attack r = v) view)" for v
    by (rule nlargest_first_occurrences)
  show "mset (nlargest n Attack view) = mset view" if "int (length view) \<le> n"
    using that by (simp add: nlargest_all mset_sort_values_desc)
  show "top_attack view n = []" if "n \<le> 0"
    using that by (simp add: top_attack_def nlargest_def)
qed

theorem top_attack_spec_witness:
  "top_attack example_df 1 = [(''A'', ''X'', 12, ''OH'', 20)] \<and>
   map Player (nlargest 3 Attack example_df) = [''A'', ''B'', ''C''] \<and>
   length (nlargest 10 Attack example_df) = 5 \<and>
   mset (nlargest 10 Attack example_df) = mset example_df \<and>
   top_attack example_df 0 = []"
proof -
  have s: "sort_values_desc Attack example_df = take 5 example_df"
    by (simp add: sort_values_desc_def example_df_def)
  have l: "int (length example_df) \<le> 10" by (simp add: example_df_def)
  have "mset (nlargest 10 Attack example_df) = mset example_df"
    using top_attack_spec [of example_df 10] l by blast
  moreover have "top_attack example_df 0 = []"
    using top_attack_spec [of example_df 0] by simp
  moreover have "top_attack example_df 1 = [(''A'', ''X'', 12, ''OH'', 20)]"
    by (simp add: top_attack_def nlargest_def s) (simp add: example_df_def)
  moreover have "map Player (nlargest 3 Attack example_df) = [''A'', ''B'', ''C'']"
    by (simp add: nlargest_def s) (simp add: example_df_def)
  moreover have "length (nlargest 10 Attack example_df) = 5"
    by (simp add: nlargest_def s) (simp add: example_df_def)
  ultimately show ?thesis by simp
qed

section \<open>Grouping\<close>

lemma set_groupby_keys: "set (groupby_keys key view) = key ` set view"
  by (simp add: groupby_keys_def)

lemma distinct_groupby_keys: "distinct (groupby_keys key view)"
  by (simp add: groupby_keys_def)

lemma sorted_groupby_keys: "sorted (groupby_keys key view)"
  by (simp add: groupby_keys_def)

lemma groupby_keys_Nil: "groupby_keys key view = [] \<longleftrightarrow> view = []"
proof -
  have "groupby_keys key view = [] \<longleftrightarrow> set (groupby_keys key view) = {}" by simp
  also have "\<dots> \<longleftrightarrow> view = []" by (simp only: set_groupby_keys) simp
  finally show ?thesis .
qed

lemma get_group_nonempty:
  "k \<in> set (groupby_keys key view) \<Longrightarrow> get_group key k view \<noteq> []"
  by (auto simp: set_groupby_keys get_group_def filter_empty_conv)

lemma get_group_empty: "k \<notin> key ` set view \<Longrightarrow> get_group key k view = []"
  by (auto simp: get_group_def filter_empty_conv)

lemma mean_nonempty: "xs \<noteq> [] \<Longrightarrow> mean (map f xs) = Some (sum_list (map f xs) / real (length xs))"
  by (simp add: mean_def)

section \<open>Mean skills by position\<close>

text \<open>
  Claim C8. For a non-empty selection of skills tab 2 computes the table of means. Its
  rows are the selected skills in their order; the columns of every row are exactly the
  positions that occur in the view, each once, in ascending order, so that a position
  with no row in the view is no column; and every cell is the mean of a group that has at
  least one row: the sum of the group's ratings over the number of its rows, never NaN.
  The tab then draws the table, unless the view is empty: the table has no column then,
  and drawing it raises.
\<close>

theorem position_skills_spec:
  "selected_skills \<noteq> [] \<Longrightarrow>
     skills_by_position view selected_skills =
       (if view = [] then Inl ValueError
        else Inr (Chart (position_skills view selected_skills))) \<and>
     map fst (position_skills view selected_skills) = selected_skills \<and>
     (\<forall>(s, cells) \<in> set (position_skills view selected_skills).
        set (map fst cells) = Position ` set view \<and>
        distinct (map fst cells) \<and> sorted (map fst cells) \<and>
        (\<forall>(p, m) \<in> set cells.
           get_group Position p view \<noteq> [] \<and>
           m = Some (sum_list (map (col s) (get_group Position p view))
                       / real (length (get_group Position p view)))))"
proof -
  assume ne: "selected_skills \<noteq> []"
  let ?keys = "groupby_keys Position view"
  have cols: "map fst (map (\<lambda>p. (p, f p)) ?keys) = ?keys" for f :: "string \<Rightarrow> real option"
    by (simp add: comp_def)
  have "concat (map snd (position_skills view selected_skills)) = [] \<longleftrightarrow> ?keys = []"
    using ne by (auto simp: position_skills_def)
  also have "\<dots> \<longleftrightarrow> view = []"
    by (rule groupby_keys_Nil)
  finally have "skills_by_position view selected_skills =
       (if view = [] then Inl ValueError
        else Inr (Chart (position_skills view selected_skills)))"
    using ne by (simp add: skills_by_position_def heatmap_def Let_def)
  moreover have "map fst (position_skills view selected_skills) = selected_skills"
    by (simp add: position_skills_def comp_def)
  moreover have "\<forall>(s, cells) \<in> set (position_skills view selected_skills).
        set (map fst cells) = Position ` set view \<and>
        distinct (map fst cells) \<and> sorted (map fst cells) \<and>
        (\<forall>(p, m) \<in> set cells.
           get_group Position p view \<noteq> [] \<and>
           m = Some (sum_list (map (col s) (get_group Position p view))
                       / real (length (get_group Position p view))))"
  proof (clarify, intro conjI)
    fix s cells
    assume "(s, cells) \<in> set (position_skills view selected_skills)"
    then have c: "cells = map (\<lambda>p. (p, mean (map (col s) (get_group Position p view)))) ?keys"
      by (auto simp: position_skills_def)
    show "set (map fst cells) = Position ` set view"
      unfolding c cols by (rule set_groupby_keys)
    show "distinct (map fst cells)"
      unfolding c cols by (rule distinct_groupby_keys)
    show "sorted (map fst cells)"
      unfolding c cols by (rule sorted_groupby_keys)
    show "\<forall>(p, m) \<in> set cells.
           get_group Position p view \<noteq> [] \<and>
           m = Some (sum_list (map (col s) (get_group Position p view))
                       / real (length (get_group Position p view)))"
      unfolding c by (auto simp: get_group_nonempty mean_nonempty)
  qed
  ultimately show ?thesis by blast
qed

theorem position_skills_spec_witness:
  "[Attack_skill] \<noteq> [] \<and>
   skills_by_position example_df [Attack_skill] =
     Inr (Chart [(Attack_skill,
                  [(''L'', Some 0), (''MB'', Some 8), (''OH'', Some 12), (''S'', Some 1)])]) \<and>
   get_group Position ''OP'' example_df = [] \<and>
   position_skills [] [Attack_skill] = [(Attack_skill, [])] \<and>
   skills_by_position [] [Attack_skill] = Inl ValueError"
proof -
  have k: "groupby_keys Position example_df = [''L'', ''MB'', ''OH'', ''S'']"
    by (simp add: groupby_keys_def example_df_def)
  have p: "position_skills example_df [Attack_skill] =
     [(Attack_skill, [(''L'', Some 0), (''MB'', Some 8), (''OH'', Some 12), (''S'', Some 1)])]"
    by (simp add: position_skills_def k) (simp add: get_group_def mean_def example_df_def)
  have e: "position_skills [] [Attack_skill] = [(Attack_skill, [])]"
    by (simp add: position_skills_def groupby_keys_def)
  have ne: "example_df \<noteq> []" by (simp add: example_df_def)
  have "skills_by_position example_df [Attack_skill] =
      (if example_df = [] then Inl ValueError
       else Inr (Chart (position_skills example_df [Attack_skill])))"
    using position_skills_spec [of "[Attack_skill]" example_df] by blast
  then have "skills_by_position example_df [Attack_skill] =
      Inr (Chart (position_skills example_df [Attack_skill]))"
    using ne by simp
  moreover have "skills_by_position [] [Attack_skill] = Inl ValueError"
    using position_skills_spec [of "[Attack_skill]" "[]"] by simp
  moreover have "get_group Position ''OP'' example_df = []"
    by (simp add: get_group_def example_df_def)
  ultimately show ?thesis by (simp add: p e)
qed

section \<open>Country statistics\<close>

lemma set_country_stats:
  "set (country_stats view m) =
     {r. \<exists>c \<in> Country ` set view. r = agg view c \<and> m \<le> int (Player_count r)}"
  by (auto simp: country_stats_def set_sort_values_desc set_groupby_keys)

lemma country_agg: "country (agg view c) = c"
  by (simp add: agg_def Let_def)

lemma Player_count_agg: "Player_count (agg view c) = length (get_group Country c view)"
  by (simp add: agg_def Let_def)

lemma distinct_country_stats: "distinct (map country (country_stats view m))"
proof -
  have "map country (map (agg view) (groupby_keys Country view)) = groupby_keys Country view"
    by (simp add: comp_def country_agg)
  then have "distinct (map country (sort_values_desc Player_count
      (map (agg view) (groupby_keys Country view))))"
    by (simp only: distinct_map_sort_values_desc distinct_groupby_keys)
  then show ?thesis
    unfolding country_stats_def by (rule distinct_map_filter)
qed

lemma sorted_country_stats:
  "sorted_wrt (\<lambda>a b. Player_count a \<ge> Player_count b) (country_stats view m)"
  unfolding country_stats_def by (rule sorted_wrt_filter, rule sorted_sort_values_desc)

lemma agg_means:
  "c \<in> Country ` set view \<Longrightarrow>
     0 < Player_count (agg view c) \<and>
     Attack_mean (agg view c) =
       Some (sum_list (map Attack (get_group Country c view)) / real (Player_count (agg view c))) \<and>
     Block_mean (agg view c) =
       Some (sum_list (map Block (get_group Country c view)) / real (Player_count (agg view c))) \<and>
     Age_mean (agg view c) =
       Some (real_of_int (sum_list (map Age (get_group Country c view)))
               / real (Player_count (agg view c)))"
proof -
  assume "c \<in> Country ` set view"
  then have ne: "get_group Country c view \<noteq> []"
    by (simp add: get_group_nonempty set_groupby_keys)
  have h: "sum_list (map (\<lambda>row. real_of_int (Age row)) g) = real_of_int (sum_list (map Age g))"
    for g :: dataset
    by (induction g) auto
  show ?thesis using ne by (simp add: agg_def Let_def mean_def h)
qed

lemma country_stats_countries:
  "c \<in> country ` set (country_stats view m) \<longleftrightarrow>
     c \<in> Country ` set view \<and> m \<le> int (length (filter (\<lambda>row. Country row = c) view))"
proof
  assume "c \<in> country ` set (country_stats view m)"
  then obtain r where r: "r \<in> set (country_stats view m)" "c = country r" by blast
  from r(1) obtain c' where c': "c' \<in> Country ` set view" "r = agg view c'"
    "m \<le> int (Player_count r)"
    by (auto simp: set_country_stats)
  have "c = c'" using r(2) c'(2) by (simp add: country_agg)
  then show "c \<in> Country ` set view \<and> m \<le> int (length (filter (\<lambda>row. Country row = c) view))"
    using c' by (simp add: Player_count_agg get_group_def)
next
  assume a: "c \<in> Country ` set view \<and> m \<le> int (length (filter (\<lambda>row. Country row = c) view))"
  then have "agg view c \<in> set (country_stats view m)"
    by (auto simp: set_country_stats Player_count_agg get_group_def)
  then have "country (agg view c) \<in> country ` set (country_stats view m)"
    by (rule imageI)
  then show "c \<in> country ` set (country_stats view m)"
    by (simp add: country_agg)
qed

text \<open>
  Claim C4. Every row of the country statistics belongs to a country of the view and holds
  the number of that country's players and the means of their attack, block and age; its
  count is at least the threshold. Each country of the view whose count reaches the
  threshold has exactly one row, and no other country has one. The rows are in descending
  order of the count. With threshold 1 every country of the view is there; with a
  threshold above every country's count the result is empty (and the tab shows its
  warning).
\<close>

theorem country_stats_spec:
  "(\<forall>r \<in> set (country_stats view m).
      country r \<in> Country ` set view \<and>
      Player_count r = length (filter (\<lambda>row. Country row = country r) view) \<and>
      m \<le> int (Player_count r) \<and> 0 < Player_count r \<and>
      Attack_mean r = Some (sum_list (map Attack (filter (\<lambda>row. Country row = country r) view))
                        / real (Player_count r)) \<and>
      Block_mean r = Some (sum_list (map Block (filter (\<lambda>row. Country row = country r) view))
                        / real (Player_count r)) \<and>
      Age_mean r = Some (real_of_int (sum_list (map Age (filter (\<lambda>row. Country row = country r) view)))
                        / real (Player_count r))) \<and>
   distinct (map country (country_stats view m)) \<and>
   country ` set (country_stats view m) =
     {c \<in> Country ` set view. m \<le> int (length (filter (\<lambda>row. Country row = c) view))} \<and>
   sorted_wrt (\<lambda>a b. Player_count a \<ge> Player_count b) (country_stats view m) \<and>
   country ` set (country_stats view 1) = Country ` set view \<and>
   ((\<forall>c \<in> Country ` set view. int (length (filter (\<lambda>row. Country row = c) view)) < m)
      \<longrightarrow> country_stats view m = [] \<and> country_performance view m = Warning)"
proof (intro conjI ballI impI)
  fix r assume r: "r \<in> set (country_stats view m)"
  then obtain c where c: "c \<in> Country ` set view" "r = agg view c" "m \<le> int (Player_count r)"
    by (auto simp: set_country_stats)
  have cr: "country r = c" using c(2) by (simp add: country_agg)
  show "country r \<in> Country ` set view" using c(1) cr by simp
  show "Player_count r = length (filter (\<lambda>row. Country row = country r) view)"
    by (simp add: c(2) country_agg Player_count_agg get_group_def)
  show "m \<le> int (Player_count r)" by (rule c(3))
  show "0 < Player_count r" using agg_means [OF c(1)] c(2) by simp
  show "Attack_mean r = Some (sum_list (map Attack (filter (\<lambda>row. Country row = country r) view))
                        / real (Player_count r))"
    using agg_means [OF c(1)] by (simp add: c(2) country_agg get_group_def)
  show "Block_mean r = Some (sum_list (map Block (filter (\<lambda>row. Country row = country r) view))
                        / real (Player_count r))"
    using agg_means [OF c(1)] by (simp add: c(2) country_agg get_group_def)
  show "Age_mean r = Some (real_of_int (sum_list (map Age (filter (\<lambda>row. Country row = country r) view)))
                        / real (Player_count r))"
    using agg_means [OF c(1)] by (simp add: c(2) country_agg get_group_def)
next
  show "distinct (map country (country_stats view m))" by (rule distinct_country_stats)
next
  show "country ` set (country_stats view m) =
     {c \<in> Country ` set view. m \<le> int (length (filter (\<lambda>row. Country row = c) view))}"
    using country_stats_countries [of _ view m] by blast
next
  show "sorted_wrt (\<lambda>a b. Player_count a \<ge> Player_count b) (country_stats view m)"
    by (rule sorted_country_stats)
next
  have "1 \<le> int (length (filter (\<lambda>row. Country row = c) view))" if "c \<in> Country ` set view" for c
  proof -
    have "filter (\<lambda>row. Country row = c) view \<noteq> []"
      using that by (auto simp: filter_empty_conv)
    then have "0 < length (filter (\<lambda>row. Country row = c) view)" by simp
    then show ?thesis by linarith
  qed
  then show "country ` set (country_stats view 1) = Country ` set view"
    using country_stats_countries [of _ view 1] by blast
next
  assume a: "\<forall>c \<in> Country ` set view. int (length (filter (\<lambda>row. Country row = c) view)) < m"
  have "set (country_stats view m) = {}"
    using a by (auto simp: set_country_stats Player_count_agg get_group_def)
  then show "country_stats view m = []" by simp
  then show "country_performance view m = Warning"
    by (simp add: country_performance_def)
qed

theorem country_stats_spec_witness:
  "country_stats example_df 3 =
     [\<lparr>country = ''X'', Player_count = 3, Attack_mean = Some (20 / 3),
       Block_mean = Some (11 / 3), Age_mean = Some 26\<rparr>] \<and>
   map country (country_stats example_df 1) = [''X'', ''Y''] \<and>
   map Player_count (country_stats example_df 1) = [3, 2] \<and>
   Country ` set example_df = {''X'', ''Y''} \<and>
   length (filter (\<lambda>row. Country row = ''X'') example_df) = 3 \<and>
   length (filter (\<lambda>row. Country row = ''Y'') example_df) = 2 \<and>
   country_stats example_df 4 = [] \<and>
   country_performance example_df 4 = Warning"
proof -
  have k: "groupby_keys Country example_df = [''X'', ''Y'']"
    by (simp add: groupby_keys_def example_df_def)
  have x: "agg example_df ''X'' = \<lparr>country = ''X'', Player_count = 3, Attack_mean = Some (20 / 3),
       Block_mean = Some (11 / 3), Age_mean = Some 26\<rparr>"
    by (simp add: agg_def get_group_def mean_def example_df_def)
  have y: "Player_count (agg example_df ''Y'') = 2" "country (agg example_df ''Y'') = ''Y''"
    by (simp_all add: agg_def get_group_def example_df_def)
  have s: "sort_values_desc Player_count (map (agg example_df) (groupby_keys Country example_df))
      = [agg example_df ''X'', agg example_df ''Y'']"
    by (simp add: k sort_values_desc_def x y)
  have c: "Country ` set example_df = {''X'', ''Y''}"
    by (auto simp: example_df_def)
  have n: "length (filter (\<lambda>row. Country row = ''X'') example_df) = 3"
    "length (filter (\<lambda>row. Country row = ''Y'') example_df) = 2"
    by (simp_all add: example_df_def)
  have "\<forall>c \<in> Country ` set example_df.
      int (length (filter (\<lambda>row. Country row = c) example_df)) < 4"
    by (simp add: c n)
  then have "country_stats example_df 4 = [] \<and> country_performance example_df 4 = Warning"
    using country_stats_spec [of example_df 4] by blast
  moreover have "country_stats example_df 3 = [agg example_df ''X'']"
    by (simp add: country_stats_def s x y)
  moreover have "country_stats example_df 1 = [agg example_df ''X'', agg example_df ''Y'']"
    by (simp add: country_stats_def s x y)
  ultimately show ?thesis by (simp add: x y c n)
qed

section \<open>Correlations\<close>

lemma pearson_commute: "pearson x y view = pearson y x view"
  by (simp add: pearson_def Let_def mult.commute)

lemma sum_list_const_map: "(\<And>r. r \<in> set view \<Longrightarrow> f r = c) \<Longrightarrow>
    sum_list (map f view) = real (length view) * (c::real)"
  by (induction view) (auto simp: algebra_simps)

lemma constant_column_mean:
  assumes "view \<noteq> []" and "\<And>r. r \<in> set view \<Longrightarrow> x r = (c::real)"
  shows "sum_list (map x view) / real (length view) = c"
  using assms sum_list_const_map [of view x c] by simp

lemma ssqdm_constant:
  assumes "\<forall>r \<in> set view. \<forall>r' \<in> set view. x r = (x r' :: real)"
  shows "(\<Sum>row\<leftarrow>view. (x row - sum_list (map x view) / real (length view))
                      * (x row - sum_list (map x view) / real (length view))) = 0"
proof (cases view)
  case Nil
  then show ?thesis by simp
next
  case (Cons r0 rest)
  then have "r0 \<in> set view" by simp
  then have c: "\<And>r. r \<in> set view \<Longrightarrow> x r = x r0" using assms by blast
  have ne: "view \<noteq> []" using Cons by simp
  have m: "sum_list (map x view) / real (length view) = x r0"
    using ne c by (rule constant_column_mean)
  have "\<And>r. r \<in> set view \<Longrightarrow> (x r - x r0) * (x r - x r0) = 0" using c by simp
  then have "(\<Sum>row\<leftarrow>view. (x row - x r0) * (x row - x r0)) = real (length view) * 0"
    by (rule sum_list_const_map)
  then show ?thesis by (simp add: m)
qed

lemma pearson_constant_left:
  assumes "\<forall>r \<in> set view. \<forall>r' \<in> set view. x r = x r'"
  shows "pearson x y view = None"
proof -
  have z: "(\<Sum>row\<leftarrow>view. (x row - sum_list (map x view) / real (length view))
                      * (x row - sum_list (map x view) / real (length view))) = 0"
    using assms by (rule ssqdm_constant)
  show ?thesis unfolding pearson_def Let_def z by simp
qed

lemma pearson_constant_right:
  "\<forall>r \<in> set view. \<forall>r' \<in> set view. y r = y r' \<Longrightarrow> pearson x y view = None"
  by (subst pearson_commute) (rule pearson_constant_left)

lemma pearson_few_rows: "length view < 2 \<Longrightarrow> pearson x y view = None"
proof -
  assume "length view < 2"
  then have "view = [] \<or> (\<exists>r. view = [r])"
    by (cases view) (auto simp: length_Suc_conv)
  then have "\<forall>r \<in> set view. \<forall>r' \<in> set view. x r = x r'" by auto
  then show ?thesis by (rule pearson_constant_left)
qed



lemma corr_entry_None: "pearson x y view = None \<Longrightarrow> corr_entry float64 x y view = None"
  by (simp add: corr_entry_def)


lemma length_corr: "length (corr float64 view cols) = length cols"
  by (simp add: corr_def Let_def)

lemma length_corr_row: "i < length cols \<Longrightarrow> length (corr float64 view cols ! i) = length cols"
  by (simp add: corr_def Let_def)

lemma corr_nth:
  "i < length cols \<Longrightarrow> j < length cols \<Longrightarrow>
     corr float64 view cols ! i ! j =
       (if j \<le> i then corr_entry float64 (col (cols ! i)) (col (cols ! j)) view
        else corr_entry float64 (col (cols ! j)) (col (cols ! i)) view)"
  by (simp add: corr_def Let_def)


lemma corr_None:
  assumes "i < length cols" "j < length cols"
    and "pearson (col (cols ! i)) (col (cols ! j)) view = None"
  shows "corr float64 view cols ! i ! j = None"
proof -
  have a: "corr_entry float64 (col (cols ! i)) (col (cols ! j)) view = None"
    using assms(3) by (rule corr_entry_None)
  have "pearson (col (cols ! j)) (col (cols ! i)) view = None"
    using assms(3) by (subst pearson_commute)
  then have b: "corr_entry float64 (col (cols ! j)) (col (cols ! i)) view = None"
    by (rule corr_entry_None)
  show ?thesis using assms(1,2) a b by (simp add: corr_nth)
qed

lemma skill_correlations_chart:
  assumes "2 \<le> length cols"
  shows "skill_correlations float64 view cols = Inr (Chart (corr float64 view cols))"
proof -
  have l: "0 < length cols" using assms by linarith
  have "length (corr float64 view cols ! 0) = length cols"
    using l by (rule length_corr_row)
  then have "corr float64 view cols ! 0 \<noteq> []" using l by auto
  moreover have "corr float64 view cols ! 0 \<in> set (corr float64 view cols)"
    using l by (simp add: length_corr)
  ultimately have "concat (corr float64 view cols) \<noteq> []" by auto
  then show ?thesis using assms by (simp add: skill_correlations_def heatmap_def Let_def)
qed






text \<open>
  Claim C10. The only guard of tab 5 is the number of selected columns: with fewer than
  two it shows the warning, and with at least two the matrix is computed and drawn
  whatever the view. For a view of fewer than two rows every entry is NaN, and for a
  column that is constant over the view every entry of its row and of its column is NaN.
  Nothing raises there.
\<close>

theorem corr_total_nan:
  "(skill_correlations float64 view cols = Inr Warning \<longleftrightarrow> length cols < 2) \<and>
   (2 \<le> length cols \<longrightarrow>
     skill_correlations float64 view cols = Inr (Chart (corr float64 view cols)) \<and>
     (length view < 2 \<longrightarrow>
        (\<forall>i < length cols. \<forall>j < length cols. corr float64 view cols ! i ! j = None)) \<and>
     (\<forall>i < length cols. \<forall>j < length cols.
        (\<forall>r \<in> set view. \<forall>r' \<in> set view. col (cols ! i) r = col (cols ! i) r')
          \<longrightarrow> corr float64 view cols ! i ! j = None \<and> corr float64 view cols ! j ! i = None))"
proof (intro conjI allI impI)
  show "skill_correlations float64 view cols = Inr Warning \<longleftrightarrow> length cols < 2"
  proof (cases "2 \<le> length cols")
    case True
    then have "skill_correlations float64 view cols = Inr (Chart (corr float64 view cols))"
      by (rule skill_correlations_chart)
    then show ?thesis using True by simp
  next
    case False
    then show ?thesis by (simp add: skill_correlations_def)
  qed
next
  assume "2 \<le> length cols"
  then show "skill_correlations float64 view cols = Inr (Chart (corr float64 view cols))"
    by (rule skill_correlations_chart)
next
  show "corr float64 view cols ! i ! j = None"
    if "length view < 2" and ij: "i < length cols" "j < length cols" for i j
    using ij pearson_few_rows [OF that(1)] by (rule corr_None)
  show "corr float64 view cols ! i ! j = None"
    if ij: "i < length cols" "j < length cols"
      and c: "\<forall>r \<in> set view. \<forall>r' \<in> set view. col (cols ! i) r = col (cols ! i) r'" for i j
    using ij pearson_constant_left [OF c] by (rule corr_None)
  show "corr float64 view cols ! j ! i = None"
    if ij: "i < length cols" "j < length cols"
      and c: "\<forall>r \<in> set view. \<forall>r' \<in> set view. col (cols ! i) r = col (cols ! i) r'" for i j
    using ij(2) ij(1) pearson_constant_right [OF c] by (rule corr_None)
qed

theorem corr_total_nan_witness:
  "2 \<le> length [Attack_skill, Block_skill] \<and>
   length [Attack_skill] < 2 \<and>
   skill_correlations no_rounding example_df [Attack_skill] = Inr Warning \<and>
   length (take 1 example_df) < 2 \<and>
   skill_correlations no_rounding (take 1 example_df) [Attack_skill, Block_skill]
     = Inr (Chart [[None, None], [None, None]]) \<and>
   map Attack (take 2 example_df) = [12, 12] \<and>
   corr no_rounding (take 2 example_df) [Attack_skill, Block_skill] ! 0 ! 0 = None \<and>
   corr no_rounding (take 2 example_df) [Attack_skill, Block_skill] ! 0 ! 1 = None \<and>
   corr no_rounding (take 2 example_df) [Attack_skill, Block_skill] ! 1 ! 0 = None"
proof -
  let ?cols = "[Attack_skill, Block_skill]"
  have l: "2 \<le> length ?cols" by simp
  have l1: "length [Attack_skill] < 2" by simp
  have i0: "0 < length ?cols" and i1: "1 < length ?cols" by simp_all
  note one = corr_total_nan [of no_rounding "take 1 example_df" ?cols]
  note two = corr_total_nan [of no_rounding "take 2 example_df" ?cols]
  have w: "skill_correlations no_rounding example_df [Attack_skill] = Inr Warning"
    using corr_total_nan [of no_rounding example_df "[Attack_skill]"] l1 by blast
  have few: "length (take 1 example_df) < 2" by simp
  have shape: "corr no_rounding v ?cols =
      [[corr no_rounding v ?cols ! 0 ! 0, corr no_rounding v ?cols ! 0 ! 1],
       [corr no_rounding v ?cols ! 1 ! 0, corr no_rounding v ?cols ! 1 ! 1]]" for v
    by (simp add: corr_def Let_def)
  have n: "corr no_rounding (take 1 example_df) ?cols ! 0 ! 0 = None"
      "corr no_rounding (take 1 example_df) ?cols ! 0 ! 1 = None"
      "corr no_rounding (take 1 example_df) ?cols ! 1 ! 0 = None"
      "corr no_rounding (take 1 example_df) ?cols ! 1 ! 1 = None"
    using one l few i0 i1 by blast+
  have "corr no_rounding (take 1 example_df) ?cols = [[None, None], [None, None]]"
    by (subst shape) (simp only: n)
  moreover have "skill_correlations no_rounding (take 1 example_df) ?cols
      = Inr (Chart (corr no_rounding (take 1 example_df) ?cols))"
    using one l by blast
  ultimately have c1: "skill_correlations no_rounding (take 1 example_df) ?cols
      = Inr (Chart [[None, None], [None, None]])"
    by simp
  have att: "map Attack (take 2 example_df) = [12, 12]"
    by (simp add: example_df_def)
  have const: "\<forall>r \<in> set (take 2 example_df). \<forall>r' \<in> set (take 2 example_df).
      col (?cols ! 0) r = col (?cols ! 0) r'"
    by (simp add: example_df_def)
  have "corr no_rounding (take 2 example_df) ?cols ! 0 ! 0 = None"
    using two l i0 const by blast
  moreover have "corr no_rounding (take 2 example_df) ?cols ! 0 ! 1 = None
      \<and> corr no_rounding (take 2 example_df) ?cols ! 1 ! 0 = None"
    using two l i0 i1 const by blast
  ultimately show ?thesis using l l1 w few c1 att by blast
qed

end
